theory Spec2Isabelle
  imports Main "HOL-Library.AList"
begin

section \<open>The TaHoma device entity (tahoma\_device.py)\<close>

subsection \<open>Values, states and device snapshots\<close>

text \<open>
  A state value arrives from the hub untyped. The Python values the entity handles are
  modelled by \<open>pyval\<close>; \<open>PNone\<close> is Python's \<open>None\<close>, which is also what
  \<open>next(..., None)\<close> and a bare \<open>return None\<close> produce. Floats and dictionaries are
  not modelled: no function of the entity inspects a value beyond its truth value and its
  identity with \<open>None\<close>.
\<close>

datatype pyval = PNone | PBool bool | PInt int | PStr string | PList "pyval list"

text \<open>Python's truth value of an object, as used by \<open>x or y\<close>.\<close>

fun truthy :: "pyval \<Rightarrow> bool" where
  "truthy PNone = False"
| "truthy (PBool b) = b"
| "truthy (PInt i) = (i \<noteq> 0)"
| "truthy (PStr s) = (s \<noteq> [])"
| "truthy (PList xs) = (xs \<noteq> [])"

text \<open>
  \<open>pyhoma.models.State\<close>: its fields \<open>name\<close> and \<open>value\<close> are spelt
  \<open>state_name\<close> and \<open>state_value\<close>, the name \<open>name\<close> being kept for the
  entity's property. The static attributes of a device are \<open>State\<close> objects too.
\<close>

record State =
  state_name :: string
  state_value :: pyval

text \<open>
  \<open>pyhoma.models.Device\<close>, with the fields the entity reads. \<open>commands\<close> stands for
  \<open>definition.commands\<close>, the command names the device advertises; \<open>attributes\<close> and
  \<open>states\<close> may be \<open>None\<close>. The availability flag is spelt \<open>device_available\<close>,
  the name \<open>available\<close> being kept for the entity's property.
\<close>

record Device =
  deviceurl :: string
  label :: string
  ui_class :: string
  widget :: string
  controllable_name :: string
  commands :: "string list"
  attributes :: "State list option"
  states :: "State list option"
  device_available :: bool

text \<open>
  The exceptions that can arise: a missing dictionary key, a failed tuple unpacking, and
  the errors of the hub client. All of them are subclasses of Python's \<open>Exception\<close>.
\<close>

datatype exn = KeyError string | ValueError string | ClientError string

text \<open>Sequencing of computations that may raise.\<close>

definition bind_exn :: "exn + 'a \<Rightarrow> ('a \<Rightarrow> exn + 'b) \<Rightarrow> exn + 'b" where
  "bind_exn m f = (case m of Inl e \<Rightarrow> Inl e | Inr x \<Rightarrow> f x)"

subsection \<open>The coordinator and the entity\<close>

text \<open>
  The coordinator holds \<open>data\<close>, the snapshot of every device keyed by device URL, and
  \<open>executions\<close>, the table of dispatched commands keyed by execution identifier. An
  entry of the latter is the dictionary
  \<open>{"deviceurl": ..., "command_name": ...}\<close>, kept as an association list.
\<close>

record TahomaDataUpdateCoordinator =
  data :: "string \<rightharpoonup> Device"
  executions :: "string \<rightharpoonup> (string \<times> string) list"

record TahomaDevice =
  device_url :: string

definition ATTR_RSSI_LEVEL :: string where
  "ATTR_RSSI_LEVEL = ''rssi_level''"

definition CORE_MANUFACTURER_NAME_STATE :: string where
  "CORE_MANUFACTURER_NAME_STATE = ''core:ManufacturerNameState''"

definition CORE_MODEL_STATE :: string where
  "CORE_MODEL_STATE = ''core:ModelState''"

definition CORE_RSSI_LEVEL_STATE :: string where
  "CORE_RSSI_LEVEL_STATE = ''core:RSSILevelState''"

text \<open>\<open>self.coordinator.data[self.device_url]\<close>: a missing key raises \<open>KeyError\<close>.\<close>

definition device :: "TahomaDevice \<Rightarrow> TahomaDataUpdateCoordinator \<Rightarrow> exn + Device" where
  "device self c =
     (case data c (device_url self) of
        None \<Rightarrow> Inl (KeyError (device_url self))
      | Some d \<Rightarrow> Inr d)"

definition name :: "TahomaDevice \<Rightarrow> TahomaDataUpdateCoordinator \<Rightarrow> exn + string" where
  "name self c = bind_exn (device self c) (\<lambda>d. Inr (label d))"

definition available :: "TahomaDevice \<Rightarrow> TahomaDataUpdateCoordinator \<Rightarrow> exn + bool" where
  "available self c = bind_exn (device self c) (\<lambda>d. Inr (device_available d))"

definition unique_id :: "TahomaDevice \<Rightarrow> TahomaDataUpdateCoordinator \<Rightarrow> exn + string" where
  "unique_id self c = bind_exn (device self c) (\<lambda>d. Inr (deviceurl d))"

text \<open>
  \<open>self.device.states is None or len(self.device.states) == 0\<close>. Both reads of
  \<open>self.device\<close> see the same store, so the snapshot is fetched once.
\<close>

definition assumed_state :: "TahomaDevice \<Rightarrow> TahomaDataUpdateCoordinator \<Rightarrow> exn + bool" where
  "assumed_state self c =
     bind_exn (device self c) (\<lambda>d.
       Inr (case states d of None \<Rightarrow> True | Some ss \<Rightarrow> length ss = 0))"

subsection \<open>Selecting commands and states\<close>

text \<open>
  \<open>next((c for c in commands if c in existing_commands), None)\<close>: the generator is
  advanced until it yields.
\<close>

fun next_command :: "string list \<Rightarrow> string list \<Rightarrow> string option" where
  "next_command existing_commands [] = None"
| "next_command existing_commands (c # cs) =
     (if c \<in> set existing_commands then Some c else next_command existing_commands cs)"

definition select_command ::
  "TahomaDevice \<Rightarrow> TahomaDataUpdateCoordinator \<Rightarrow> string list \<Rightarrow> exn + string option" where
  "select_command self c cmds =
     bind_exn (device self c) (\<lambda>d. Inr (next_command (commands d) cmds))"

definition has_command ::
  "TahomaDevice \<Rightarrow> TahomaDataUpdateCoordinator \<Rightarrow> string list \<Rightarrow> exn + bool" where
  "has_command self c cmds =
     bind_exn (select_command self c cmds) (\<lambda>r. Inr (r \<noteq> None))"

text \<open>
  \<open>next((state.value for state in self.device.states if state.name in list(states)), None)\<close>.
  The result of the generator and the default are both Python objects, so a state whose
  value is \<open>None\<close> and the default cannot be told apart.
\<close>

fun next_state :: "State list \<Rightarrow> string list \<Rightarrow> pyval" where
  "next_state [] sts = PNone"
| "next_state (s # ss) sts =
     (if state_name s \<in> set sts then state_value s else next_state ss sts)"

definition select_state ::
  "TahomaDevice \<Rightarrow> TahomaDataUpdateCoordinator \<Rightarrow> string list \<Rightarrow> exn + pyval" where
  "select_state self c sts =
     bind_exn (device self c) (\<lambda>d.
       case states d of
         None \<Rightarrow> Inr PNone
       | Some ss \<Rightarrow> if ss \<noteq> [] then Inr (next_state ss sts) else Inr PNone)"

definition has_state ::
  "TahomaDevice \<Rightarrow> TahomaDataUpdateCoordinator \<Rightarrow> string list \<Rightarrow> exn + bool" where
  "has_state self c sts =
     bind_exn (select_state self c sts) (\<lambda>v. Inr (v \<noteq> PNone))"

subsection \<open>Strings\<close>

text \<open>\<open>s.startswith(p)\<close> and the substring test \<open>sub in s\<close> of Python.\<close>

fun starts_with :: "string \<Rightarrow> string \<Rightarrow> bool" where
  "starts_with [] s = True"
| "starts_with (p # ps) [] = False"
| "starts_with (p # ps) (x # xs) = (p = x \<and> starts_with ps xs)"

fun str_contains :: "string \<Rightarrow> string \<Rightarrow> bool" where
  "str_contains sub [] = (sub = [])"
| "str_contains sub (x # xs) = (starts_with sub (x # xs) \<or> str_contains sub xs)"

text \<open>
  \<open>s.split(sep)\<close> for a separator of one character: the pieces of \<open>s\<close> between the
  occurrences of the separator, empty pieces included; never an empty list.
\<close>

fun split_str :: "char \<Rightarrow> string \<Rightarrow> string list" where
  "split_str sep [] = [[]]"
| "split_str sep (x # xs) =
     (if x = sep then [] # split_str sep xs
      else (case split_str sep xs of
              [] \<Rightarrow> [[x]]
            | p # ps \<Rightarrow> (x # p) # ps))"

subsection \<open>State attributes\<close>

text \<open>
  The dictionary \<open>attr\<close> is an association list in insertion order; \<open>attr[k] = v\<close>
  is \<open>AList.update k v\<close>, which replaces the value of a key already there and appends
  a new key at the end, as a Python dictionary does.
\<close>

definition device_state_attributes ::
  "TahomaDevice \<Rightarrow> TahomaDataUpdateCoordinator \<Rightarrow> exn + (string \<times> pyval) list" where
  "device_state_attributes self c =
     bind_exn (device self c) (\<lambda>d.
     let attr0 = [(''ui_class'', PStr (ui_class d)),
                  (''widget'', PStr (widget d)),
                  (''controllable_name'', PStr (controllable_name d))]
     in
     bind_exn (has_state self c [CORE_RSSI_LEVEL_STATE]) (\<lambda>has_rssi.
     bind_exn (if has_rssi
               then bind_exn (select_state self c [CORE_RSSI_LEVEL_STATE])
                      (\<lambda>v. Inr (AList.update ATTR_RSSI_LEVEL v attr0))
               else Inr attr0) (\<lambda>attr1.
     let attr2 = (case attributes d of
                    None \<Rightarrow> attr1
                  | Some ats \<Rightarrow>
                      if ats \<noteq> []
                      then fold (\<lambda>attribute. AList.update (state_name attribute)
                                   (state_value attribute)) ats attr1
                      else attr1);
         attr3 = (case states d of
                    None \<Rightarrow> attr2
                  | Some sts \<Rightarrow>
                      if sts \<noteq> []
                      then fold (\<lambda>state attr.
                                   if str_contains ''State'' (state_name state)
                                   then AList.update (state_name state) (state_value state) attr
                                   else attr) sts attr2
                      else attr2)
     in Inr attr3)))"

text \<open>
  The merge order in the words of the specification: the entries are written one after
  the other into an empty mapping, a later write replacing an earlier one of the same key.
\<close>

definition last_write_wins :: "(string \<times> pyval) list \<Rightarrow> (string \<rightharpoonup> pyval)" where
  "last_write_wins kvs = fold (\<lambda>kv m. m(fst kv \<mapsto> snd kv)) kvs Map.empty"

definition state_items :: "State list option \<Rightarrow> (string \<times> pyval) list" where
  "state_items ss =
     (case ss of None \<Rightarrow> [] | Some xs \<Rightarrow> map (\<lambda>s. (state_name s, state_value s)) xs)"

subsection \<open>Device registry information\<close>

text \<open>
  An entry of the host's entity registry, with the two fields the entity reads
  (\<open>unique_id\<close> is spelt \<open>entry_unique_id\<close>). \<open>original_name\<close> may be \<open>None\<close>.
  The registry's \<open>entities\<close> dictionary is an association list from entity id to entry;
  the argument \<open>entity_registry\<close> of \<open>device_info\<close> is
  \<open>hass.data.get("entity_registry")\<close>, so that \<open>None\<close> makes the subscript
  \<open>hass.data["entity_registry"]\<close> raise \<open>KeyError\<close>.
\<close>

record RegistryEntry =
  original_name :: "string option"
  entry_unique_id :: string

text \<open>
  The returned dictionary; its key \<open>"name"\<close> is the field \<open>info_name\<close>. The constant
  \<open>DOMAIN\<close> of \<open>const.py\<close> is a parameter of \<open>device_info\<close>.
\<close>

record DeviceInfo =
  identifiers :: "(string \<times> string) set"
  manufacturer :: pyval
  info_name :: "string option"
  model :: pyval
  sw_version :: string

text \<open>\<open>next((entry.original_name for ... if entry.unique_id == uid), None)\<close>.\<close>

fun next_original_name :: "(string \<times> RegistryEntry) list \<Rightarrow> string \<Rightarrow> string option" where
  "next_original_name [] uid = None"
| "next_original_name ((entity_id, entry) # es) uid =
     (if entry_unique_id entry = uid then original_name entry
      else next_original_name es uid)"

text \<open>
  \<open>device_url, _ = self.device.deviceurl.split("#")\<close>: unpacking into two names
  raises \<open>ValueError\<close> unless the split has exactly two pieces.
\<close>

definition unpack2 :: "string list \<Rightarrow> exn + string \<times> string" where
  "unpack2 parts =
     (case parts of
        [] \<Rightarrow> Inl (ValueError ''not enough values to unpack'')
      | [a] \<Rightarrow> Inl (ValueError ''not enough values to unpack'')
      | [a, b] \<Rightarrow> Inr (a, b)
      | a # b # x # xs \<Rightarrow> Inl (ValueError ''too many values to unpack''))"

definition device_info ::
  "string \<Rightarrow> (string \<times> RegistryEntry) list option \<Rightarrow>
   TahomaDevice \<Rightarrow> TahomaDataUpdateCoordinator \<Rightarrow> exn + DeviceInfo" where
  "device_info DOMAIN entity_registry self c =
     bind_exn (select_state self c [CORE_MANUFACTURER_NAME_STATE]) (\<lambda>m.
     bind_exn (select_state self c [CORE_MODEL_STATE]) (\<lambda>mo.
     bind_exn (device self c) (\<lambda>d.
     bind_exn (name self c) (\<lambda>nm.
     bind_exn
       (if str_contains ''#'' (device_url self)
        then bind_exn (unpack2 (split_str CHR ''#'' (deviceurl d))) (\<lambda>(base, _).
               case entity_registry of
                 None \<Rightarrow> Inl (KeyError ''entity_registry'')
               | Some entities \<Rightarrow> Inr (base, next_original_name entities (base @ ''#1'')))
        else Inr (device_url self, Some nm))
       (\<lambda>(url, nm').
          Inr \<lparr>identifiers = {(DOMAIN, url)},
               manufacturer = (if truthy m then m else PStr ''Somfy''),
               info_name = nm',
               model = (if truthy mo then mo else PStr (widget d)),
               sw_version = controllable_name d\<rparr>)))))"

subsection \<open>Executing and cancelling commands\<close>

text \<open>
  \<open>pyhoma.models.Command(name, parameters)\<close>. The hub client and the coordinator's
  \<open>async_refresh\<close> are collaborators outside this file: \<open>execute_command\<close> returns an
  execution identifier or raises, \<open>cancel_command\<close> returns or raises, and
  \<open>async_refresh\<close> replaces the coordinator's contents (the host's implementation logs
  its own failures and does not raise). They are parameters of the functions below.

  The calls made to the collaborators and to the logger are recorded, in order, in the
  \<open>events\<close> of the \<open>world\<close>.

  While \<open>async_execute_command\<close> is suspended in the hub call, other tasks run, the
  scheduled refresh among them, and may replace the coordinator's data. The function
  reads \<open>self.device\<close> again after an accepted submission, outside the \<open>try\<close>, so
  an accepted call hands back the execution identifier together with the coordinator as
  the coroutine finds it on resumption. After a failed submission nothing is read any
  more, and the world returned holds what the function itself has done.
\<close>

datatype Command = Command string "pyval list"

datatype event =
    ExecuteCommand string Command string
  | CancelCommand string
  | LogError exn
  | Refresh

record world =
  coordinator :: TahomaDataUpdateCoordinator
  events :: "event list"

definition async_execute_command ::
  "(string \<Rightarrow> Command \<Rightarrow> string \<Rightarrow> exn + string \<times> TahomaDataUpdateCoordinator) \<Rightarrow>
   (TahomaDataUpdateCoordinator \<Rightarrow> TahomaDataUpdateCoordinator) \<Rightarrow>
   TahomaDevice \<Rightarrow> string \<Rightarrow> pyval list \<Rightarrow> world \<Rightarrow> (exn + unit) \<times> world" where
  "async_execute_command execute_command async_refresh self command_name args w =
     (case device self (coordinator w) of
        Inl exception \<Rightarrow> (Inr (), w\<lparr>events := events w @ [LogError exception]\<rparr>)
      | Inr d \<Rightarrow>
          let cmd = Command command_name args;
              w1 = w\<lparr>events := events w @ [ExecuteCommand (deviceurl d) cmd ''Home Assistant'']\<rparr>
          in
          (case execute_command (deviceurl d) cmd ''Home Assistant'' of
             Inl exception \<Rightarrow> (Inr (), w1\<lparr>events := events w1 @ [LogError exception]\<rparr>)
           | Inr (exec_id, resumed) \<Rightarrow>
               let w2 = w1\<lparr>coordinator := resumed\<rparr> in
               (case device self (coordinator w2) of
                  Inl e \<Rightarrow> (Inl e, w2)
                | Inr d' \<Rightarrow>
                    let w3 = w2\<lparr>coordinator := (coordinator w2)
                               \<lparr>executions := (executions (coordinator w2))
                                  (exec_id \<mapsto> [(''deviceurl'', deviceurl d'),
                                               (''command_name'', command_name)])\<rparr>\<rparr>;
                        w4 = w3\<lparr>coordinator := async_refresh (coordinator w3),
                                events := events w3 @ [Refresh]\<rparr>
                    in (Inr (), w4))))"

definition async_cancel_command ::
  "(string \<Rightarrow> exn + unit) \<Rightarrow> TahomaDevice \<Rightarrow> string \<Rightarrow> world \<Rightarrow> (exn + unit) \<times> world" where
  "async_cancel_command cancel_command self exec_id w =
     (cancel_command exec_id, w\<lparr>events := events w @ [CancelCommand exec_id]\<rparr>)"

subsection \<open>Example inputs\<close>

definition example_states :: "State list" where
  "example_states =
     [\<lparr>state_name = ''core:StatusState'', state_value = PStr ''available''\<rparr>,
      \<lparr>state_name = ''core:ClosureState'', state_value = PInt 50\<rparr>,
      \<lparr>state_name = ''core:NameState'', state_value = PNone\<rparr>]"

definition example_device :: Device where
  "example_device =
     \<lparr>deviceurl = ''io://1234-5678-9012/12345#1'', label = ''Blind'',
      ui_class = ''Shutter'', widget = ''UpDownExteriorBlind'',
      controllable_name = ''io:ExteriorVenetianBlindIOComponent'',
      commands = [''open'', ''close''],
      attributes = Some [\<lparr>state_name = ''manufacturer'', state_value = PStr ''X''\<rparr>],
      states = Some example_states, device_available = True\<rparr>"

definition example_coordinator :: TahomaDataUpdateCoordinator where
  "example_coordinator =
     \<lparr>data = [''io://1234-5678-9012/12345#1'' \<mapsto> example_device],
      executions = Map.empty\<rparr>"

definition example_entity :: TahomaDevice where
  "example_entity = \<lparr>device_url = ''io://1234-5678-9012/12345#1''\<rparr>"

definition example_world :: world where
  "example_world = \<lparr>coordinator = example_coordinator, events = []\<rparr>"

section \<open>Properties\<close>

subsection \<open>Helper lemmas\<close>

lemma device_present: "data c (device_url self) = Some d \<Longrightarrow> device self c = Inr d"
  by (simp add: device_def)

lemma device_absent:
  "data c (device_url self) = None \<Longrightarrow> device self c = Inl (KeyError (device_url self))"
  by (simp add: device_def)

lemma next_state_first:
  "\<forall>x \<in> set xs. state_name x \<notin> set sts \<Longrightarrow> state_name s \<in> set sts \<Longrightarrow>
   next_state (xs @ s # ys) sts = state_value s"
  by (induction xs) auto

lemma next_state_none:
  "\<forall>x \<in> set ss. state_name x \<notin> set sts \<Longrightarrow> next_state ss sts = PNone"
  by (induction ss) auto

lemma next_state_all_none:
  "\<forall>x \<in> set xs. state_name x \<in> set sts \<longrightarrow> state_value x = PNone \<Longrightarrow>
   state_name s \<in> set sts \<Longrightarrow> state_value s = PNone \<Longrightarrow>
   next_state (xs @ s # ys) sts = PNone"
  by (induction xs) auto

lemma next_command_first:
  "\<forall>x \<in> set xs. x \<notin> set caps \<Longrightarrow> k \<in> set caps \<Longrightarrow>
   next_command caps (xs @ k # ys) = Some k"
  by (induction xs) auto

lemma next_command_none: "\<forall>x \<in> set cs. x \<notin> set caps \<Longrightarrow> next_command caps cs = None"
  by (induction cs) auto

lemma example_data:
  "data example_coordinator (device_url example_entity) = Some example_device"
  by (simp add: example_coordinator_def example_entity_def)

lemma select_state_present:
  "data c (device_url self) = Some d \<Longrightarrow>
   select_state self c sts
   = Inr (case states d of None \<Rightarrow> PNone | Some ss \<Rightarrow> next_state ss sts)"
  by (cases "states d") (simp_all add: select_state_def bind_exn_def device_def)

lemma next_state_found:
  "next_state ss sts \<noteq> PNone \<Longrightarrow> \<exists>s \<in> set ss. state_name s \<in> set sts"
  using next_state_none by blast

lemma str_contains_char: "str_contains [ch] s = (ch \<in> set s)"
  by (induction s) auto

lemma split_str_no_sep: "sep \<notin> set s \<Longrightarrow> split_str sep s = [s]"
  by (induction s) auto

lemma split_str_one_sep:
  "sep \<notin> set a \<Longrightarrow> split_str sep (a @ sep # b) = a # split_str sep b"
  by (induction a) auto

lemma map_of_fold_update:
  "map_of (fold (\<lambda>a. AList.update (state_name a) (state_value a)) xs al)
   = fold (\<lambda>kv m. m(fst kv \<mapsto> snd kv)) (map (\<lambda>s. (state_name s, state_value s)) xs) (map_of al)"
  by (induction xs arbitrary: al) (simp_all add: update_conv')

lemma map_of_fold_update_if:
  "map_of (fold (\<lambda>state attr. if P (state_name state)
                   then AList.update (state_name state) (state_value state) attr
                   else attr) xs al)
   = fold (\<lambda>kv m. m(fst kv \<mapsto> snd kv))
       (filter (\<lambda>kv. P (fst kv)) (map (\<lambda>s. (state_name s, state_value s)) xs)) (map_of al)"
  by (induction xs arbitrary: al) (simp_all add: update_conv')

lemma last_write_wins_append:
  "map_of al = last_write_wins kvs0 \<Longrightarrow>
   fold (\<lambda>kv m. m(fst kv \<mapsto> snd kv)) kvs (map_of al) = last_write_wins (kvs0 @ kvs)"
  by (simp add: last_write_wins_def)

lemma map_of_attr0:
  "map_of [(''ui_class'', a), (''widget'', b), (''controllable_name'', c)]
   = last_write_wins [(''ui_class'', a), (''widget'', b), (''controllable_name'', c)]"
  by (rule ext) (simp add: last_write_wins_def)

lemma merge_static:
  assumes "map_of attr1 = last_write_wins kvs0"
  shows "map_of (case ats of
                    None \<Rightarrow> attr1
                  | Some xs \<Rightarrow>
                      if xs \<noteq> []
                      then fold (\<lambda>attribute. AList.update (state_name attribute)
                                   (state_value attribute)) xs attr1
                      else attr1)
         = last_write_wins (kvs0 @ state_items ats)"
proof (cases ats)
  case None
  then show ?thesis using assms by (simp add: state_items_def)
next
  case (Some xs)
  then show ?thesis
    using last_write_wins_append [OF assms]
    by (cases "xs = []") (simp_all add: state_items_def map_of_fold_update assms)
qed

lemma merge_states:
  assumes "map_of attr2 = last_write_wins kvs0"
  shows "map_of (case sts of
                    None \<Rightarrow> attr2
                  | Some xs \<Rightarrow>
                      if xs \<noteq> []
                      then fold (\<lambda>state attr.
                                   if str_contains ''State'' (state_name state)
                                   then AList.update (state_name state) (state_value state) attr
                                   else attr) xs attr2
                      else attr2)
         = last_write_wins (kvs0 @ filter (\<lambda>kv. str_contains ''State'' (fst kv)) (state_items sts))"
proof (cases sts)
  case None
  then show ?thesis using assms by (simp add: state_items_def)
next
  case (Some xs)
  then show ?thesis
    using last_write_wins_append [OF assms]
    by (cases "xs = []") (simp_all add: state_items_def map_of_fold_update_if assms)
qed

subsection \<open>Selecting a state\<close>

text \<open>
  Claim C1. For every state list and every list of candidate names, \<open>select_state\<close>
  returns the value of the first entry of the state list, in its stored order, whose name
  is among the candidates: every entry before it has a name outside the candidates. It
  returns \<open>None\<close> when no entry has such a name, and when the state list is empty or
  absent.
\<close>

theorem select_state_first_match:
  assumes "data c (device_url self) = Some d"
  shows "(states d = None \<longrightarrow> select_state self c C = Inr PNone)
       \<and> (states d = Some [] \<longrightarrow> select_state self c C = Inr PNone)
       \<and> (\<forall>L. states d = Some L \<and> (\<forall>x \<in> set L. state_name x \<notin> set C)
              \<longrightarrow> select_state self c C = Inr PNone)
       \<and> (\<forall>xs s ys. states d = Some (xs @ s # ys)
              \<and> (\<forall>x \<in> set xs. state_name x \<notin> set C) \<and> state_name s \<in> set C
              \<longrightarrow> select_state self c C = Inr (state_value s))"
proof -
  have dev: "device self c = Inr d"
    using assms by (rule device_present)
  have absent: "states d = None \<longrightarrow> select_state self c C = Inr PNone"
    by (simp add: select_state_def bind_exn_def dev)
  have empty: "states d = Some [] \<longrightarrow> select_state self c C = Inr PNone"
    by (simp add: select_state_def bind_exn_def dev)
  have nomatch: "\<forall>L. states d = Some L \<and> (\<forall>x \<in> set L. state_name x \<notin> set C)
              \<longrightarrow> select_state self c C = Inr PNone"
    by (simp add: select_state_def bind_exn_def dev next_state_none)
  have first: "\<forall>xs s ys. states d = Some (xs @ s # ys)
              \<and> (\<forall>x \<in> set xs. state_name x \<notin> set C) \<and> state_name s \<in> set C
              \<longrightarrow> select_state self c C = Inr (state_value s)"
    by (simp add: select_state_def bind_exn_def dev next_state_first)
  from absent empty nomatch first show ?thesis by blast
qed

theorem select_state_first_match_witness:
  "select_state example_entity example_coordinator [''core:ClosureState'', ''core:StatusState'']
     = Inr (PStr ''available'')
   \<and> select_state example_entity example_coordinator [''core:RSSILevelState''] = Inr PNone"
proof -
  let ?s = "\<lparr>state_name = ''core:StatusState'', state_value = PStr ''available''\<rparr>"
  let ?ys = "[\<lparr>state_name = ''core:ClosureState'', state_value = PInt 50\<rparr>,
              \<lparr>state_name = ''core:NameState'', state_value = PNone\<rparr>]"
  have st: "states example_device = Some ([] @ ?s # ?ys)"
    by (simp add: example_device_def example_states_def)
  have "select_state example_entity example_coordinator
          [''core:ClosureState'', ''core:StatusState''] = Inr (state_value ?s)"
    using select_state_first_match [OF example_data,
        of "[''core:ClosureState'', ''core:StatusState'']", THEN conjunct2, THEN conjunct2,
        THEN conjunct2, rule_format, of "[]" ?s ?ys] st
    by simp
  moreover have "select_state example_entity example_coordinator [''core:RSSILevelState'']
      = Inr PNone"
    using select_state_first_match [OF example_data, of "[''core:RSSILevelState'']"]
    by (simp add: example_device_def example_states_def)
  ultimately show ?thesis by simp
qed

text \<open>
  Claim C10. When the state list holds an entry whose name is among the candidates and
  whose value is \<open>None\<close>, and every matching entry before it has the value \<open>None\<close>
  as well, \<open>select_state\<close> returns \<open>None\<close> and \<open>has_state\<close> returns \<open>False\<close>,
  although a state of that name is in the list.
\<close>

theorem select_state_none_value:
  assumes "data c (device_url self) = Some d"
    and "states d = Some (xs @ s # ys)"
    and "state_name s \<in> set C"
    and "state_value s = PNone"
    and "\<forall>x \<in> set xs. state_name x \<in> set C \<longrightarrow> state_value x = PNone"
  shows "select_state self c C = Inr PNone \<and> has_state self c C = Inr False"
proof -
  have dev: "device self c = Inr d"
    using assms(1) by (rule device_present)
  have "next_state (xs @ s # ys) C = PNone"
    using assms(5,3,4) by (rule next_state_all_none)
  then have "select_state self c C = Inr PNone"
    using assms(2) by (simp add: select_state_def bind_exn_def dev)
  then show ?thesis
    by (simp add: has_state_def bind_exn_def)
qed

theorem select_state_none_value_witness:
  "select_state example_entity example_coordinator [''core:NameState''] = Inr PNone
   \<and> has_state example_entity example_coordinator [''core:NameState''] = Inr False
   \<and> ''core:NameState'' \<in> state_name ` set example_states"
proof -
  let ?xs = "[\<lparr>state_name = ''core:StatusState'', state_value = PStr ''available''\<rparr>,
              \<lparr>state_name = ''core:ClosureState'', state_value = PInt 50\<rparr>]"
  let ?s = "\<lparr>state_name = ''core:NameState'', state_value = PNone\<rparr>"
  have st: "states example_device = Some (?xs @ ?s # [])"
    by (simp add: example_device_def example_states_def)
  have "select_state example_entity example_coordinator [''core:NameState''] = Inr PNone
   \<and> has_state example_entity example_coordinator [''core:NameState''] = Inr False"
    by (rule select_state_none_value [OF example_data st]) simp_all
  moreover have "''core:NameState'' \<in> state_name ` set example_states"
    by (simp add: example_states_def)
  ultimately show ?thesis by simp
qed

subsection \<open>Assumed state\<close>

text \<open>
  Claim C9. For every snapshot, \<open>assumed_state\<close> is true exactly when the state list
  is absent or empty.
\<close>

theorem assumed_state_iff:
  assumes "data c (device_url self) = Some d"
  shows "assumed_state self c = Inr (states d = None \<or> states d = Some [])"
  using assms by (simp add: assumed_state_def bind_exn_def device_def split: option.splits)

theorem assumed_state_iff_witness:
  "assumed_state example_entity example_coordinator = Inr False
   \<and> assumed_state example_entity
        (example_coordinator\<lparr>data := [device_url example_entity \<mapsto>
            example_device\<lparr>states := None\<rparr>]\<rparr>) = Inr True
   \<and> assumed_state example_entity
        (example_coordinator\<lparr>data := [device_url example_entity \<mapsto>
            example_device\<lparr>states := Some []\<rparr>]\<rparr>) = Inr True"
proof -
  have a: "assumed_state example_entity example_coordinator = Inr False"
    using assumed_state_iff [OF example_data]
    by (simp add: example_device_def example_states_def)
  have b: "assumed_state example_entity
        (example_coordinator\<lparr>data := [device_url example_entity \<mapsto>
            example_device\<lparr>states := None\<rparr>]\<rparr>) = Inr True"
    using assumed_state_iff [of "example_coordinator\<lparr>data := [device_url example_entity \<mapsto>
            example_device\<lparr>states := None\<rparr>]\<rparr>" example_entity "example_device\<lparr>states := None\<rparr>"]
    by simp
  have c: "assumed_state example_entity
        (example_coordinator\<lparr>data := [device_url example_entity \<mapsto>
            example_device\<lparr>states := Some []\<rparr>]\<rparr>) = Inr True"
    using assumed_state_iff [of "example_coordinator\<lparr>data := [device_url example_entity \<mapsto>
            example_device\<lparr>states := Some []\<rparr>]\<rparr>" example_entity "example_device\<lparr>states := Some []\<rparr>"]
    by simp
  from a b c show ?thesis by simp
qed

subsection \<open>Selecting a command\<close>

text \<open>
  Claim C6. \<open>select_command\<close> returns the first name of the candidate list, in the
  caller's order, that the device's definition advertises, and \<open>None\<close> when it
  advertises none of them. With the commands \<open>open\<close> and \<open>close\<close> and the candidates
  \<open>toggle\<close>, \<open>close\<close>, \<open>open\<close> the result is \<open>close\<close>.
\<close>

theorem select_command_first_supported:
  assumes "data c (device_url self) = Some d"
  shows "(\<forall>xs k ys. cmds = xs @ k # ys \<and> (\<forall>x \<in> set xs. x \<notin> set (commands d))
                \<and> k \<in> set (commands d)
              \<longrightarrow> select_command self c cmds = Inr (Some k))
       \<and> ((\<forall>x \<in> set cmds. x \<notin> set (commands d)) \<longrightarrow> select_command self c cmds = Inr None)
       \<and> (set (commands d) = {''open'', ''close''}
              \<longrightarrow> select_command self c [''toggle'', ''close'', ''open''] = Inr (Some ''close''))"
proof -
  have dev: "device self c = Inr d"
    using assms by (rule device_present)
  have sel: "\<And>ks. select_command self c ks = Inr (next_command (commands d) ks)"
    by (simp add: select_command_def bind_exn_def dev)
  have first: "\<forall>xs k ys. cmds = xs @ k # ys \<and> (\<forall>x \<in> set xs. x \<notin> set (commands d))
                \<and> k \<in> set (commands d)
              \<longrightarrow> select_command self c cmds = Inr (Some k)"
    by (simp add: sel next_command_first)
  have none: "(\<forall>x \<in> set cmds. x \<notin> set (commands d)) \<longrightarrow> select_command self c cmds = Inr None"
    by (simp add: sel next_command_none)
  have ex: "set (commands d) = {''open'', ''close''}
              \<longrightarrow> select_command self c [''toggle'', ''close'', ''open''] = Inr (Some ''close'')"
    by (simp add: sel)
  from first none ex show ?thesis by blast
qed

theorem select_command_first_supported_witness:
  "select_command example_entity example_coordinator [''toggle'', ''close'', ''open'']
     = Inr (Some ''close'')
   \<and> select_command example_entity example_coordinator [''toggle'', ''stop''] = Inr None"
proof -
  have cs: "set (commands example_device) = {''open'', ''close''}"
    by (simp add: example_device_def)
  have a: "select_command example_entity example_coordinator [''toggle'', ''close'', ''open'']
     = Inr (Some ''close'')"
    using select_command_first_supported [OF example_data, of "[''toggle'', ''close'', ''open'']",
        THEN conjunct1, rule_format, of "[''toggle'']" "''close''" "[''open'']"] cs
    by simp
  have b: "select_command example_entity example_coordinator [''toggle'', ''stop''] = Inr None"
    using select_command_first_supported [OF example_data, of "[''toggle'', ''stop'']",
        THEN conjunct2, THEN conjunct1] cs
    by simp
  from a b show ?thesis by simp
qed

subsection \<open>State attributes\<close>

text \<open>
  Claim C5. \<open>device_state_attributes\<close> builds its mapping in a fixed order: the
  three fields \<open>ui_class\<close>, \<open>widget\<close> and \<open>controllable_name\<close>, then the entry
  \<open>rssi_level\<close>, written only if \<open>select_state\<close> finds a value for the RSSI state
  (which then is in the state list), then every static attribute, then every state whose
  name contains \<open>State\<close>; a key written twice keeps the last value. For a device of
  class \<open>Shutter\<close> and widget \<open>UpDownExteriorBlind\<close> with the one static attribute
  \<open>manufacturer = X\<close> and the one state \<open>core:ClosureState = 50\<close>, the result has
  exactly the keys \<open>ui_class\<close>, \<open>widget\<close>, \<open>controllable_name\<close>, \<open>manufacturer\<close>
  and \<open>core:ClosureState\<close>, with these values.
\<close>

theorem device_state_attributes_merge_order:
  assumes "data c (device_url self) = Some d"
  shows "(\<exists>attr rssi.
            device_state_attributes self c = Inr attr
          \<and> select_state self c [CORE_RSSI_LEVEL_STATE] = Inr rssi
          \<and> (rssi \<noteq> PNone \<longrightarrow>
               (\<exists>ss. states d = Some ss \<and> CORE_RSSI_LEVEL_STATE \<in> state_name ` set ss))
          \<and> map_of attr = last_write_wins
               ([(''ui_class'', PStr (ui_class d)), (''widget'', PStr (widget d)),
                 (''controllable_name'', PStr (controllable_name d))]
                @ (if rssi \<noteq> PNone then [(''rssi_level'', rssi)] else [])
                @ state_items (attributes d)
                @ filter (\<lambda>kv. str_contains ''State'' (fst kv)) (state_items (states d))))
       \<and> (ui_class d = ''Shutter'' \<and> widget d = ''UpDownExteriorBlind''
          \<and> attributes d = Some [\<lparr>state_name = ''manufacturer'', state_value = PStr ''X''\<rparr>]
          \<and> states d = Some [\<lparr>state_name = ''core:ClosureState'', state_value = PStr ''50''\<rparr>]
          \<longrightarrow> device_state_attributes self c
                = Inr [(''ui_class'', PStr ''Shutter''), (''widget'', PStr ''UpDownExteriorBlind''),
                       (''controllable_name'', PStr (controllable_name d)),
                       (''manufacturer'', PStr ''X''), (''core:ClosureState'', PStr ''50'')])"
proof -
  have dev: "device self c = Inr d"
    using assms by (rule device_present)
  let ?attr0 = "[(''ui_class'', PStr (ui_class d)), (''widget'', PStr (widget d)),
                 (''controllable_name'', PStr (controllable_name d))]"
  define rssi where "rssi = (case states d of None \<Rightarrow> PNone
      | Some ss \<Rightarrow> if ss \<noteq> [] then next_state ss [CORE_RSSI_LEVEL_STATE] else PNone)"
  have sel: "select_state self c [CORE_RSSI_LEVEL_STATE] = Inr rssi"
    by (simp add: select_state_def bind_exn_def dev rssi_def split: option.splits)
  have has: "has_state self c [CORE_RSSI_LEVEL_STATE] = Inr (rssi \<noteq> PNone)"
    by (simp add: has_state_def bind_exn_def sel)
  have present: "rssi \<noteq> PNone \<longrightarrow>
      (\<exists>ss. states d = Some ss \<and> CORE_RSSI_LEVEL_STATE \<in> state_name ` set ss)"
  proof
    assume nz: "rssi \<noteq> PNone"
    then obtain ss where ss: "states d = Some ss" and "next_state ss [CORE_RSSI_LEVEL_STATE] \<noteq> PNone"
      by (auto simp: rssi_def split: option.splits if_splits)
    then have "\<exists>s \<in> set ss. state_name s \<in> set [CORE_RSSI_LEVEL_STATE]"
      by (intro next_state_found)
    then show "\<exists>ss. states d = Some ss \<and> CORE_RSSI_LEVEL_STATE \<in> state_name ` set ss"
      using ss by force
  qed
  define attr1 where "attr1 = (if rssi \<noteq> PNone then AList.update ATTR_RSSI_LEVEL rssi ?attr0 else ?attr0)"
  define attr2 where "attr2 = (case attributes d of
                    None \<Rightarrow> attr1
                  | Some xs \<Rightarrow>
                      if xs \<noteq> []
                      then fold (\<lambda>attribute. AList.update (state_name attribute)
                                   (state_value attribute)) xs attr1
                      else attr1)"
  define attr3 where "attr3 = (case states d of
                    None \<Rightarrow> attr2
                  | Some xs \<Rightarrow>
                      if xs \<noteq> []
                      then fold (\<lambda>state attr.
                                   if str_contains ''State'' (state_name state)
                                   then AList.update (state_name state) (state_value state) attr
                                   else attr) xs attr2
                      else attr2)"
  have res: "device_state_attributes self c = Inr attr3"
    unfolding device_state_attributes_def attr3_def attr2_def attr1_def Let_def
    by (cases "rssi = PNone") (simp_all add: bind_exn_def dev has sel del: update.simps)
  have m0: "map_of ?attr0 = last_write_wins ?attr0"
    by (rule map_of_attr0)
  have m1: "map_of attr1 = last_write_wins
      (?attr0 @ (if rssi \<noteq> PNone then [(''rssi_level'', rssi)] else []))"
  proof (cases "rssi = PNone")
    case True
    then show ?thesis using m0 by (simp add: attr1_def)
  next
    case False
    have "map_of (AList.update ATTR_RSSI_LEVEL rssi ?attr0)
        = fold (\<lambda>kv m. m(fst kv \<mapsto> snd kv)) [(''rssi_level'', rssi)] (map_of ?attr0)"
      by (simp only: update_conv' ATTR_RSSI_LEVEL_def fold_simps fst_conv snd_conv id_apply o_apply)
    also have "\<dots> = last_write_wins (?attr0 @ [(''rssi_level'', rssi)])"
      by (rule last_write_wins_append [OF m0])
    finally show ?thesis using False by (simp add: attr1_def)
  qed
  have m2: "map_of attr2 = last_write_wins
      ((?attr0 @ (if rssi \<noteq> PNone then [(''rssi_level'', rssi)] else []))
       @ state_items (attributes d))"
    unfolding attr2_def by (rule merge_static [OF m1])
  have m3: "map_of attr3 = last_write_wins
      (((?attr0 @ (if rssi \<noteq> PNone then [(''rssi_level'', rssi)] else []))
       @ state_items (attributes d))
       @ filter (\<lambda>kv. str_contains ''State'' (fst kv)) (state_items (states d)))"
    unfolding attr3_def by (rule merge_states [OF m2])
  have general: "\<exists>attr rssi.
            device_state_attributes self c = Inr attr
          \<and> select_state self c [CORE_RSSI_LEVEL_STATE] = Inr rssi
          \<and> (rssi \<noteq> PNone \<longrightarrow>
               (\<exists>ss. states d = Some ss \<and> CORE_RSSI_LEVEL_STATE \<in> state_name ` set ss))
          \<and> map_of attr = last_write_wins
               ([(''ui_class'', PStr (ui_class d)), (''widget'', PStr (widget d)),
                 (''controllable_name'', PStr (controllable_name d))]
                @ (if rssi \<noteq> PNone then [(''rssi_level'', rssi)] else [])
                @ state_items (attributes d)
                @ filter (\<lambda>kv. str_contains ''State'' (fst kv)) (state_items (states d)))"
    using res sel present m3 by (intro exI [of _ attr3] exI [of _ rssi]) simp
  have example: "ui_class d = ''Shutter'' \<and> widget d = ''UpDownExteriorBlind''
          \<and> attributes d = Some [\<lparr>state_name = ''manufacturer'', state_value = PStr ''X''\<rparr>]
          \<and> states d = Some [\<lparr>state_name = ''core:ClosureState'', state_value = PStr ''50''\<rparr>]
          \<longrightarrow> device_state_attributes self c
                = Inr [(''ui_class'', PStr ''Shutter''), (''widget'', PStr ''UpDownExteriorBlind''),
                       (''controllable_name'', PStr (controllable_name d)),
                       (''manufacturer'', PStr ''X''), (''core:ClosureState'', PStr ''50'')]"
    unfolding res attr3_def attr2_def attr1_def rssi_def CORE_RSSI_LEVEL_STATE_def
    by simp
  from general example show ?thesis by (rule conjI)
qed


theorem device_state_attributes_merge_order_witness:
  "\<exists>attr. device_state_attributes example_entity example_coordinator = Inr attr
     \<and> map_of attr ''ui_class'' = Some (PStr ''Shutter'')
     \<and> map_of attr ''manufacturer'' = Some (PStr ''X'')
     \<and> map_of attr ''core:ClosureState'' = Some (PInt 50)
     \<and> map_of attr ''rssi_level'' = None"
proof -
  from device_state_attributes_merge_order [OF example_data, THEN conjunct1]
  obtain attr rssi where
    a: "device_state_attributes example_entity example_coordinator = Inr attr" and
    r: "rssi \<noteq> PNone \<longrightarrow> (\<exists>ss. states example_device = Some ss
          \<and> CORE_RSSI_LEVEL_STATE \<in> state_name ` set ss)" and
    m: "map_of attr = last_write_wins
               ([(''ui_class'', PStr (ui_class example_device)),
                 (''widget'', PStr (widget example_device)),
                 (''controllable_name'', PStr (controllable_name example_device))]
                @ (if rssi \<noteq> PNone then [(''rssi_level'', rssi)] else [])
                @ state_items (attributes example_device)
                @ filter (\<lambda>kv. str_contains ''State'' (fst kv))
                    (state_items (states example_device)))"
    by blast
  have "rssi = PNone"
    using r by (auto simp: example_device_def example_states_def CORE_RSSI_LEVEL_STATE_def)
  then have "map_of attr ''ui_class'' = Some (PStr ''Shutter'')
     \<and> map_of attr ''manufacturer'' = Some (PStr ''X'')
     \<and> map_of attr ''core:ClosureState'' = Some (PInt 50)
     \<and> map_of attr ''rssi_level'' = None"
    unfolding m
    by (simp add: last_write_wins_def state_items_def example_device_def example_states_def)
  with a show ?thesis by blast
qed

subsection \<open>Device registry information\<close>

text \<open>
  Claim C4. A device identity is a base URL, followed for a sub-device by \<open>#\<close> and the
  number of the sub-device; the store holds a snapshot under the URL it carries. When
  the identity contains no \<open>#\<close>, the identifiers of \<open>device_info\<close> carry the identity
  itself and the name is the device's label; the entity registry is not looked at, the
  result being the same whatever it holds and when there is none. When the identity
  contains \<open>#\<close>, the identifiers carry the part of the identity before the \<open>#\<close>, for
  every content of the entity registry, and the name is the original name of the first
  registry entry whose unique id is that part followed by \<open>#1\<close>.
\<close>

theorem device_info_grouping_key:
  assumes "data c (device_url self) = Some d"
  shows "(CHR ''#'' \<notin> set (device_url self) \<longrightarrow>
            (\<exists>info. device_info DOMAIN entity_registry self c = Inr info
                 \<and> identifiers info = {(DOMAIN, device_url self)}
                 \<and> info_name info = Some (label d))
          \<and> device_info DOMAIN entity_registry self c = device_info DOMAIN None self c)
       \<and> (\<forall>base suffix entities.
            device_url self = base @ ''#'' @ suffix
          \<and> CHR ''#'' \<notin> set base \<and> CHR ''#'' \<notin> set suffix
          \<and> deviceurl d = device_url self
          \<longrightarrow> (\<exists>info. device_info DOMAIN (Some entities) self c = Inr info
                 \<and> identifiers info = {(DOMAIN, base)}
                 \<and> info_name info = next_original_name entities (base @ ''#1'')))"
proof -
  have dev: "device self c = Inr d"
    using assms by (rule device_present)
  obtain m where m: "select_state self c [CORE_MANUFACTURER_NAME_STATE] = Inr m"
    using select_state_present [OF assms] by blast
  obtain mo where mo: "select_state self c [CORE_MODEL_STATE] = Inr mo"
    using select_state_present [OF assms] by blast
  have nm: "name self c = Inr (label d)"
    by (simp add: name_def bind_exn_def dev)
  have plain: "CHR ''#'' \<notin> set (device_url self) \<longrightarrow>
            (\<exists>info. device_info DOMAIN entity_registry self c = Inr info
                 \<and> identifiers info = {(DOMAIN, device_url self)}
                 \<and> info_name info = Some (label d))
          \<and> device_info DOMAIN entity_registry self c = device_info DOMAIN None self c"
    by (simp add: device_info_def bind_exn_def dev m mo nm str_contains_char)
  have sub: "\<forall>base suffix entities.
            device_url self = base @ ''#'' @ suffix
          \<and> CHR ''#'' \<notin> set base \<and> CHR ''#'' \<notin> set suffix
          \<and> deviceurl d = device_url self
          \<longrightarrow> (\<exists>info. device_info DOMAIN (Some entities) self c = Inr info
                 \<and> identifiers info = {(DOMAIN, base)}
                 \<and> info_name info = next_original_name entities (base @ ''#1''))"
  proof (intro allI impI, elim conjE)
    fix base suffix entities
    assume url: "device_url self = base @ ''#'' @ suffix"
      and b: "CHR ''#'' \<notin> set base" and s: "CHR ''#'' \<notin> set suffix"
      and same: "deviceurl d = device_url self"
    have parts: "split_str CHR ''#'' (deviceurl d) = [base, suffix]"
      using b s by (simp add: same url split_str_one_sep split_str_no_sep)
    have has: "str_contains ''#'' (device_url self)"
      by (simp add: str_contains_char url)
    show "\<exists>info. device_info DOMAIN (Some entities) self c = Inr info
                 \<and> identifiers info = {(DOMAIN, base)}
                 \<and> info_name info = next_original_name entities (base @ ''#1'')"
      by (simp add: device_info_def bind_exn_def dev m mo nm has parts unpack2_def)
  qed
  from plain sub show ?thesis by (rule conjI)
qed

theorem device_info_grouping_key_witness:
  "(\<exists>info. device_info ''tahoma''
             (Some [(''cover.blind'', \<lparr>original_name = Some ''Terrace blind'',
                       entry_unique_id = ''io://1234-5678-9012/12345#1''\<rparr>)])
             example_entity example_coordinator = Inr info
        \<and> identifiers info = {(''tahoma'', ''io://1234-5678-9012/12345'')}
        \<and> info_name info = Some ''Terrace blind'')
   \<and> (\<exists>info. device_info ''tahoma'' None \<lparr>device_url = ''io://1234-5678-9012/67890''\<rparr>
             \<lparr>data = [''io://1234-5678-9012/67890'' \<mapsto> example_device],
              executions = Map.empty\<rparr> = Inr info
        \<and> identifiers info = {(''tahoma'', ''io://1234-5678-9012/67890'')}
        \<and> info_name info = Some ''Blind'')"
proof -
  let ?reg = "[(''cover.blind'', \<lparr>original_name = Some ''Terrace blind'',
                       entry_unique_id = ''io://1234-5678-9012/12345#1''\<rparr>)]"
  have "device_url example_entity = ''io://1234-5678-9012/12345'' @ ''#'' @ ''1''
      \<and> CHR ''#'' \<notin> set ''io://1234-5678-9012/12345'' \<and> CHR ''#'' \<notin> set ''1''
      \<and> deviceurl example_device = device_url example_entity"
    by (simp add: example_entity_def example_device_def)
  then have sub: "\<exists>info. device_info ''tahoma'' (Some ?reg) example_entity example_coordinator
             = Inr info
        \<and> identifiers info = {(''tahoma'', ''io://1234-5678-9012/12345'')}
        \<and> info_name info = next_original_name ?reg (''io://1234-5678-9012/12345'' @ ''#1'')"
    by (rule device_info_grouping_key [OF example_data, of "''tahoma''",
          THEN conjunct2, rule_format])
  let ?self = "\<lparr>device_url = ''io://1234-5678-9012/67890''\<rparr>"
  let ?c = "\<lparr>data = [''io://1234-5678-9012/67890'' \<mapsto> example_device],
              executions = Map.empty\<rparr>"
  have h: "data ?c (device_url ?self) = Some example_device"
    by simp
  have "CHR ''#'' \<notin> set (device_url ?self)"
    by simp
  then have plain: "\<exists>info. device_info ''tahoma'' None ?self ?c = Inr info
        \<and> identifiers info = {(''tahoma'', device_url ?self)}
        \<and> info_name info = Some (label example_device)"
    by (rule device_info_grouping_key [OF h, of "''tahoma''" None, THEN conjunct1,
          rule_format, THEN conjunct1])
  from sub plain show ?thesis
    by (simp add: example_device_def)
qed

subsection \<open>The snapshot accessor\<close>

text \<open>
  Claim C7, as amended. When the entity's device URL is not a key of the coordinator's
  data, \<open>device\<close> raises \<open>KeyError\<close>; when it is, \<open>device\<close> returns the stored
  snapshot. Nothing in the entity turns the failure into a state of unavailability:
  \<open>available\<close> raises the same \<open>KeyError\<close>, and returns the snapshot's flag when
  the URL is present.
\<close>

theorem device_absent_raises:
  "(data c (device_url self) = None \<longrightarrow>
       device self c = Inl (KeyError (device_url self))
     \<and> available self c = Inl (KeyError (device_url self)))
   \<and> (\<forall>d. data c (device_url self) = Some d \<longrightarrow>
       device self c = Inr d \<and> available self c = Inr (device_available d))"
  by (simp add: device_def available_def bind_exn_def)

theorem device_absent_raises_witness:
  "device example_entity \<lparr>data = Map.empty, executions = Map.empty\<rparr>
     = Inl (KeyError ''io://1234-5678-9012/12345#1'')
   \<and> available example_entity \<lparr>data = Map.empty, executions = Map.empty\<rparr>
     = Inl (KeyError ''io://1234-5678-9012/12345#1'')
   \<and> device example_entity example_coordinator = Inr example_device
   \<and> available example_entity example_coordinator = Inr True"
proof -
  have "data \<lparr>data = Map.empty, executions = Map.empty\<rparr> (device_url example_entity) = None"
    by simp
  then have a: "device example_entity \<lparr>data = Map.empty, executions = Map.empty\<rparr>
       = Inl (KeyError (device_url example_entity))
     \<and> available example_entity \<lparr>data = Map.empty, executions = Map.empty\<rparr>
       = Inl (KeyError (device_url example_entity))"
    by (rule device_absent_raises [THEN conjunct1, rule_format])
  have b: "device example_entity example_coordinator = Inr example_device
     \<and> available example_entity example_coordinator = Inr (device_available example_device)"
    using example_data by (rule device_absent_raises [THEN conjunct2, rule_format])
  from a b show ?thesis
    by (simp add: example_entity_def example_device_def)
qed

text \<open>
  Claim C7 as stated, with the failure surfacing as unavailability, fails: for a store
  without the entity's URL, \<open>available\<close> does not answer \<open>False\<close>, it raises.
\<close>

theorem available_absent_counterexample:
  "available example_entity \<lparr>data = Map.empty, executions = Map.empty\<rparr>
     = Inl (KeyError ''io://1234-5678-9012/12345#1'')
   \<and> available example_entity \<lparr>data = Map.empty, executions = Map.empty\<rparr> \<noteq> Inr False"
  by (simp add: available_def device_def bind_exn_def example_entity_def)

subsection \<open>Executing and cancelling commands\<close>

text \<open>
  The regular course of an accepted command: when the snapshot is still in the store as
  the coroutine resumes, the call returns without raising, and the coordinator it leaves
  is the result of \<open>async_refresh\<close> on a coordinator \<open>c_mid\<close> that already holds,
  under the execution identifier, the entry with the device URL and the command name.
  The calls made are the submission and then the refresh.
\<close>

lemma execute_registers_before_refresh:
  assumes "data (coordinator w) (device_url self) = Some d"
    and "execute_command (deviceurl d) (Command command_name args) ''Home Assistant''
         = Inr (exec_id, resumed)"
    and "data resumed (device_url self) = Some d'"
  shows "\<exists>c_mid.
           data c_mid = data resumed
         \<and> executions c_mid = (executions resumed)
             (exec_id \<mapsto> [(''deviceurl'', deviceurl d'), (''command_name'', command_name)])
         \<and> async_execute_command execute_command async_refresh self command_name args w
           = (Inr (),
              \<lparr>coordinator = async_refresh c_mid,
               events = events w @
                 [ExecuteCommand (deviceurl d) (Command command_name args) ''Home Assistant'',
                  Refresh]\<rparr>)"
proof -
  let ?c_mid = "resumed\<lparr>executions := (executions resumed)
             (exec_id \<mapsto> [(''deviceurl'', deviceurl d'), (''command_name'', command_name)])\<rparr>"
  have dev: "device self (coordinator w) = Inr d"
    using assms(1) by (rule device_present)
  have dev': "device self resumed = Inr d'"
    using assms(3) by (rule device_present)
  have "async_execute_command execute_command async_refresh self command_name args w
           = (Inr (),
              \<lparr>coordinator = async_refresh ?c_mid,
               events = events w @
                 [ExecuteCommand (deviceurl d) (Command command_name args) ''Home Assistant'',
                  Refresh]\<rparr>)"
    by (simp add: async_execute_command_def Let_def dev dev' assms(2))
  then show ?thesis
    by (intro exI [of _ ?c_mid]) simp
qed

text \<open>
  When the store has lost the entity's URL as the coroutine resumes, the read of
  \<open>self.device\<close> for the entry raises \<open>KeyError\<close>, which reaches the caller: the
  entry is not recorded and \<open>async_refresh\<close> is not called.
\<close>

lemma execute_accepted_snapshot_gone:
  assumes "data (coordinator w) (device_url self) = Some d"
    and "execute_command (deviceurl d) (Command command_name args) ''Home Assistant''
         = Inr (exec_id, resumed)"
    and "data resumed (device_url self) = None"
  shows "async_execute_command execute_command async_refresh self command_name args w
         = (Inl (KeyError (device_url self)),
            \<lparr>coordinator = resumed,
             events = events w @
               [ExecuteCommand (deviceurl d) (Command command_name args)
                  ''Home Assistant'']\<rparr>)"
proof -
  have dev: "device self (coordinator w) = Inr d"
    using assms(1) by (rule device_present)
  have dev': "device self resumed = Inl (KeyError (device_url self))"
    using assms(3) by (rule device_absent)
  show ?thesis
    by (simp add: async_execute_command_def Let_def dev dev' assms(2))
qed

text \<open>
  Claim C2. Whenever the hub client accepts the command and returns an execution
  identifier, the entry with the device URL and the command name is to be recorded under
  that identifier before the forced refresh starts, and the refresh is to be done when
  the call returns. The code does not do so for every accepted command. Here the hub
  accepts the command \<open>open\<close> with the identifier \<open>E1\<close>, and a refresh that ran
  during the hub call has dropped the device from the store: the call raises
  \<open>KeyError\<close>, the table of executions stays empty, and the only call made is the
  submission.
\<close>

theorem execute_accepted_device_removed:
  "async_execute_command
     (\<lambda>url cmd origin. Inr (''E1'', \<lparr>data = Map.empty, executions = Map.empty\<rparr>))
     (\<lambda>c. c) example_entity ''open'' [] example_world
   = (Inl (KeyError ''io://1234-5678-9012/12345#1''),
      \<lparr>coordinator = \<lparr>data = Map.empty, executions = Map.empty\<rparr>,
       events = [ExecuteCommand ''io://1234-5678-9012/12345#1'' (Command ''open'' [])
                   ''Home Assistant'']\<rparr>)"
  by (simp add: async_execute_command_def Let_def device_def example_world_def
      example_coordinator_def example_entity_def example_device_def)

text \<open>
  Claim C3. When the submission raises, \<open>async_execute_command\<close> returns without
  raising, the coordinator is unchanged (no entry is recorded and \<open>async_refresh\<close> is
  not called), and the only trace of the failure is the logged exception. The same holds
  when reading the snapshot for the submission raises \<open>KeyError\<close>.
\<close>

theorem execute_failure_swallowed:
  "(\<forall>d e. data (coordinator w) (device_url self) = Some d
        \<and> execute_command (deviceurl d) (Command command_name args) ''Home Assistant'' = Inl e
      \<longrightarrow> async_execute_command execute_command async_refresh self command_name args w
          = (Inr (),
             \<lparr>coordinator = coordinator w,
              events = events w @
                [ExecuteCommand (deviceurl d) (Command command_name args) ''Home Assistant'',
                 LogError e]\<rparr>))
   \<and> (data (coordinator w) (device_url self) = None
      \<longrightarrow> async_execute_command execute_command async_refresh self command_name args w
          = (Inr (),
             \<lparr>coordinator = coordinator w,
              events = events w @ [LogError (KeyError (device_url self))]\<rparr>))"
  by (simp add: async_execute_command_def Let_def device_def)

theorem execute_failure_swallowed_witness:
  "async_execute_command (\<lambda>url cmd origin. Inl (ClientError ''rejected''))
     (\<lambda>c. c\<lparr>data := Map.empty\<rparr>) example_entity ''open'' [] example_world
   = (Inr (),
      \<lparr>coordinator = example_coordinator,
       events = [ExecuteCommand ''io://1234-5678-9012/12345#1'' (Command ''open'' [])
                   ''Home Assistant'', LogError (ClientError ''rejected'')]\<rparr>)"
proof -
  have "data (coordinator example_world) (device_url example_entity) = Some example_device
      \<and> (\<lambda>url cmd origin. Inl (ClientError ''rejected'')) (deviceurl example_device)
           (Command ''open'' []) ''Home Assistant''
         = (Inl (ClientError ''rejected'') :: exn + string \<times> TahomaDataUpdateCoordinator)"
    by (simp add: example_world_def example_data)
  then have "async_execute_command (\<lambda>url cmd origin. Inl (ClientError ''rejected''))
     (\<lambda>c. c\<lparr>data := Map.empty\<rparr>) example_entity ''open'' [] example_world
   = (Inr (),
      \<lparr>coordinator = coordinator example_world,
       events = events example_world @
         [ExecuteCommand (deviceurl example_device) (Command ''open'' []) ''Home Assistant'',
          LogError (ClientError ''rejected'')]\<rparr>)"
    by (rule execute_failure_swallowed [THEN conjunct1, rule_format])
  then show ?thesis
    by (simp add: example_world_def example_device_def)
qed

text \<open>
  Claim C8. \<open>async_cancel_command\<close> calls the hub client's \<open>cancel_command\<close> with
  the execution identifier and returns what it returns, an exception included; the
  coordinator, with its data and its table of executions, is unchanged.
\<close>

theorem cancel_forwards_to_client:
  "fst (async_cancel_command cancel_command self exec_id w) = cancel_command exec_id
   \<and> coordinator (snd (async_cancel_command cancel_command self exec_id w)) = coordinator w
   \<and> events (snd (async_cancel_command cancel_command self exec_id w))
     = events w @ [CancelCommand exec_id]"
  by (simp add: async_cancel_command_def)

end
